theory Spec2Isabelle
  imports Main "HOL-Library.Sublist"
begin

section \<open>Python strings\<close>

text \<open>
  A Python \<open>str\<close> is modelled as a \<open>string\<close>: the list of the bytes of its UTF-8
  encoding. Case mapping and white space are those of ASCII: \<open>str.lower\<close> and
  \<open>str.upper\<close> change the letters A-Z and a-z only, and \<open>str.strip\<close> removes the
  ASCII characters for which \<open>str.isspace\<close> holds (codes 9-13 and 28-32). Cased letters
  and white space outside ASCII are not modelled.
\<close>

definition lower_char :: "char \<Rightarrow> char" where
  "lower_char c =
     (let n = (of_char c :: nat) in if 65 \<le> n \<and> n \<le> 90 then char_of (n + 32) else c)"

definition upper_char :: "char \<Rightarrow> char" where
  "upper_char c =
     (let n = (of_char c :: nat) in if 97 \<le> n \<and> n \<le> 122 then char_of (n - 32) else c)"

definition py_lower :: "string \<Rightarrow> string" where
  "py_lower s = map lower_char s"

definition py_upper :: "string \<Rightarrow> string" where
  "py_upper s = map upper_char s"

definition is_space :: "char \<Rightarrow> bool" where
  "is_space c = (let n = (of_char c :: nat) in (9 \<le> n \<and> n \<le> 13) \<or> (28 \<le> n \<and> n \<le> 32))"

definition py_strip :: "string \<Rightarrow> string" where
  "py_strip s = rev (dropWhile is_space (rev (dropWhile is_space s)))"

definition py_startswith :: "string \<Rightarrow> string \<Rightarrow> bool" where
  "py_startswith s p = (take (length p) s = p)"

definition py_endswith :: "string \<Rightarrow> string \<Rightarrow> bool" where
  "py_endswith s p = (length p \<le> length s \<and> drop (length s - length p) s = p)"

section \<open>Python values\<close>

text \<open>
  The values that \<open>json.loads\<close> returns, and that the program handles as \<open>Any\<close>:
  \<open>None\<close>, booleans, integers, strings, lists, and dicts with string keys, the entries
  of a dict in insertion order. Numbers with a fraction are not modelled.
\<close>

datatype pyval = PNone | PBool bool | PInt int | PStr string
  | PList "pyval list" | PDict "(string \<times> pyval) list"

text \<open>
  The exceptions the program can raise; those of the HTTP and SMTP libraries carry
  their message.
\<close>

datatype py_error = AttributeError | TypeError | ValueError
  | RequestException string | SMTPException string

text \<open>Truth value testing, and \<open>a or b\<close>.\<close>

fun truthy :: "pyval \<Rightarrow> bool" where
  "truthy PNone = False"
| "truthy (PBool b) = b"
| "truthy (PInt n) = (n \<noteq> 0)"
| "truthy (PStr s) = (s \<noteq> [])"
| "truthy (PList xs) = (xs \<noteq> [])"
| "truthy (PDict kvs) = (kvs \<noteq> [])"

definition py_or :: "pyval \<Rightarrow> pyval \<Rightarrow> pyval" where
  "py_or a b = (if truthy a then a else b)"

text \<open>\<open>d.get(k)\<close> and \<open>d.get(k, default)\<close> on a dict with string keys.\<close>

type_synonym pydict = "(string \<times> pyval) list"

definition dict_get :: "pydict \<Rightarrow> string \<Rightarrow> pyval" where
  "dict_get d k = (case map_of d k of None \<Rightarrow> PNone | Some v \<Rightarrow> v)"

definition dict_get_default :: "pydict \<Rightarrow> string \<Rightarrow> pyval \<Rightarrow> pyval" where
  "dict_get_default d k dflt = (case map_of d k of None \<Rightarrow> dflt | Some v \<Rightarrow> v)"

text \<open>\<open>str(n)\<close> of an integer: decimal digits, with a minus sign when negative.\<close>

fun str_nat :: "nat \<Rightarrow> string" where
  "str_nat n =
     (if n < 10 then [char_of (48 + n)]
      else str_nat (n div 10) @ [char_of (48 + n mod 10)])"

declare str_nat.simps [simp del]

definition str_int :: "int \<Rightarrow> string" where
  "str_int i = (if i < 0 then CHR ''-'' # str_nat (nat (- i)) else str_nat (nat i))"

text \<open>\<open>sep.join(xs)\<close>.\<close>

fun py_join :: "string \<Rightarrow> string list \<Rightarrow> string" where
  "py_join sep [] = []"
| "py_join sep [x] = x"
| "py_join sep (x # y # ys) = x @ sep @ py_join sep (y # ys)"

text \<open>
  \<open>repr\<close> of a string: single quotes, unless the string has a single quote and no double
  quote; the quote and the backslash are escaped, control characters are written as
  \<open>\t\<close>, \<open>\n\<close>, \<open>\r\<close> or \<open>\xNN\<close>.
\<close>

definition hex_digit :: "nat \<Rightarrow> char" where
  "hex_digit d = (if d < 10 then char_of (48 + d) else char_of (87 + d))"

definition repr_char :: "char \<Rightarrow> char \<Rightarrow> string" where
  "repr_char q c =
     (let n = (of_char c :: nat) in
      if c = q \<or> n = 92 then [CHR 0x5C, c]
      else if n = 9 then [CHR 0x5C, CHR ''t'']
      else if n = 10 then [CHR 0x5C, CHR ''n'']
      else if n = 13 then [CHR 0x5C, CHR ''r'']
      else if n < 32 \<or> n = 127
        then [CHR 0x5C, CHR ''x'', hex_digit (n div 16), hex_digit (n mod 16)]
      else [c])"

definition repr_str :: "string \<Rightarrow> string" where
  "repr_str s =
     (let q = (if CHR 0x27 \<in> set s \<and> CHR 0x22 \<notin> set s then CHR 0x22 else CHR 0x27)
      in [q] @ concat (map (repr_char q) s) @ [q])"

fun py_repr :: "pyval \<Rightarrow> string" where
  "py_repr PNone = ''None''"
| "py_repr (PBool b) = (if b then ''True'' else ''False'')"
| "py_repr (PInt n) = str_int n"
| "py_repr (PStr s) = repr_str s"
| "py_repr (PList xs) = ''['' @ py_join '', '' (map py_repr xs) @ '']''"
| "py_repr (PDict kvs) =
     ''{'' @ py_join '', '' (map (\<lambda>(k, v). repr_str k @ '': '' @ py_repr v) kvs) @ ''}''"

text \<open>\<open>str(v)\<close>, which is what an f-string writes for \<open>{v}\<close>.\<close>

definition py_str :: "pyval \<Rightarrow> string" where
  "py_str v = (case v of PStr s \<Rightarrow> s | _ \<Rightarrow> py_repr v)"

text \<open>
  The keys of the dict of seen request ids. The program tests and stores
  \<open>rid\<close>, which is any value of the feed: a list or a dict is unhashable and raises
  \<open>TypeError\<close>, the other values are keys. Python compares keys with \<open>==\<close>, under which
  \<open>True == 1\<close> and \<open>False == 0\<close>.
\<close>

datatype key = KNone | KBool bool | KInt int | KStr string

fun key_of :: "pyval \<Rightarrow> py_error + key" where
  "key_of PNone = Inr KNone"
| "key_of (PBool b) = Inr (KBool b)"
| "key_of (PInt n) = Inr (KInt n)"
| "key_of (PStr s) = Inr (KStr s)"
| "key_of (PList xs) = Inl TypeError"
| "key_of (PDict kvs) = Inl TypeError"

fun key_canon :: "key \<Rightarrow> key" where
  "key_canon (KBool b) = KInt (if b then 1 else 0)"
| "key_canon k = k"

definition key_eq :: "key \<Rightarrow> key \<Rightarrow> bool" where
  "key_eq a b = (key_canon a = key_canon b)"

type_synonym seen_dict = "(key \<times> pyval) list"

text \<open>\<open>k in d\<close>, \<open>d[k] = v\<close> and \<open>del d[k]\<close>; a new key goes to the end of the dict.\<close>

definition seen_contains :: "seen_dict \<Rightarrow> key \<Rightarrow> bool" where
  "seen_contains d k = list_ex (\<lambda>kv. key_eq (fst kv) k) d"

fun seen_setitem :: "seen_dict \<Rightarrow> key \<Rightarrow> pyval \<Rightarrow> seen_dict" where
  "seen_setitem [] k v = [(k, v)]"
| "seen_setitem (kv # d) k v =
     (if key_eq (fst kv) k then (fst kv, v) # d else kv # seen_setitem d k v)"

definition seen_delitem :: "seen_dict \<Rightarrow> key \<Rightarrow> seen_dict" where
  "seen_delitem d k = filter (\<lambda>kv. \<not> key_eq (fst kv) k) d"

section \<open>Host matcher\<close>

text \<open>
  \<^verbatim>\<open>
  def normalize_host(h: str) -> str:
      h = (h or "").lower().strip()
      if h.startswith("www."):
          h = h[4:]
      return h
  \<close>
  On a \<open>str\<close> argument \<open>h or ""\<close> is \<open>h\<close> itself.
\<close>

definition normalize_host :: "string \<Rightarrow> string" where
  "normalize_host h0 =
     (let h = py_strip (py_lower h0)
      in if py_startswith h ''www.'' then drop 4 h else h)"

text \<open>
  \<^verbatim>\<open>
  def host_matches(monitored: List[str], host: str) -> bool:
      host = normalize_host(host)
      for m in monitored:
          m = normalize_host(m)
          if host == m or host.endswith("." + m):
              return True
      return False
  \<close>
  \<open>host_matches_loop\<close> is the \<open>for\<close> loop, on the normalized host.
\<close>

fun host_matches_loop :: "string list \<Rightarrow> string \<Rightarrow> bool" where
  "host_matches_loop [] host = False"
| "host_matches_loop (m0 # monitored) host =
     (let m = normalize_host m0
      in if host = m \<or> py_endswith host (''.'' @ m) then True
         else host_matches_loop monitored host)"

definition host_matches :: "string list \<Rightarrow> string \<Rightarrow> bool" where
  "host_matches monitored host0 =
     (let host = normalize_host host0 in host_matches_loop monitored host)"

text \<open>
  The feed gives the host as \<open>Any\<close>. \<open>h or ""\<close> replaces a false value by the empty
  string; \<open>.lower()\<close> on a true value that is no string raises \<open>AttributeError\<close>.
\<close>

definition normalize_host_any :: "pyval \<Rightarrow> py_error + string" where
  "normalize_host_any h =
     (case py_or h (PStr []) of
        PStr s \<Rightarrow> Inr (normalize_host s)
      | _ \<Rightarrow> Inl AttributeError)"

definition host_matches_any :: "string list \<Rightarrow> pyval \<Rightarrow> py_error + bool" where
  "host_matches_any monitored host0 =
     (case normalize_host_any host0 of
        Inl e \<Rightarrow> Inl e
      | Inr host \<Rightarrow> Inr (host_matches_loop monitored host))"

text \<open>
  The normalization as the specification words it: lowercase, then strip one leading
  \<open>www.\<close> label. It has no trimming of white space.
\<close>

definition spec_normalized :: "string \<Rightarrow> string" where
  "spec_normalized h = (let l = py_lower h in if prefix ''www.'' l then drop 4 l else l)"

definition spec_host_matches :: "string list \<Rightarrow> string \<Rightarrow> bool" where
  "spec_host_matches M h =
     (\<exists>m \<in> set M. spec_normalized h = spec_normalized m
                 \<or> suffix (''.'' @ spec_normalized m) (spec_normalized h))"

section \<open>Configuration from the environment\<close>

text \<open>
  The environment, after \<open>load_dotenv\<close>, maps a name to its value when it is set.
  \<open>STATE_FILE\<close> names the state file; the model holds the content of that file
  instead of its path.
\<close>

type_synonym env = "string \<Rightarrow> string option"

definition getenv :: "env \<Rightarrow> string \<Rightarrow> string \<Rightarrow> string" where
  "getenv e name dflt = (case e name of None \<Rightarrow> dflt | Some v \<Rightarrow> v)"

text \<open>\<open>s.split(",")\<close>: the pieces between the commas, at least one piece.\<close>

fun py_split :: "char \<Rightarrow> string \<Rightarrow> string list" where
  "py_split c [] = [[]]"
| "py_split c (x # xs) =
     (let r = py_split c xs
      in if x = c then [] # r else (x # hd r) # tl r)"

text \<open>
  \<open>int(s)\<close> of a string: white space around is stripped, one sign may come first,
  then decimal digits, where single underscores may stand between digits. Anything
  else raises \<open>ValueError\<close>. (The interpreter's limit on the number of digits is not
  modelled.)
\<close>

definition is_digit :: "char \<Rightarrow> bool" where
  "is_digit c = (let n = (of_char c :: nat) in 48 \<le> n \<and> n \<le> 57)"

fun digits_ok :: "string \<Rightarrow> bool" where
  "digits_ok [] = False"
| "digits_ok [c] = is_digit c"
| "digits_ok (c # d # cs) =
     (is_digit c \<and> (if d = CHR ''_'' then digits_ok cs else digits_ok (d # cs)))"

definition digits_value :: "string \<Rightarrow> int" where
  "digits_value s =
     foldl (\<lambda>acc c. if c = CHR ''_'' then acc else 10 * acc + (int (of_char c) - 48)) 0 s"

definition py_int :: "string \<Rightarrow> py_error + int" where
  "py_int s0 =
     (let s = py_strip s0;
          neg = (s \<noteq> [] \<and> hd s = CHR ''-'');
          body = (if s \<noteq> [] \<and> (hd s = CHR ''-'' \<or> hd s = CHR ''+'') then tl s else s)
      in if digits_ok body
         then Inr (if neg then - digits_value body else digits_value body)
         else Inl ValueError)"

record config =
  URL :: string
  MONITORED_HOSTS :: "string list"
  USE_STATE :: bool
  SLACK_WEBHOOK :: string
  SLACK_SUMMARY_ONLY :: bool
  SLACK_EXAMPLES_PER_HOST :: int
  SLACK_MAX_HOSTS :: int
  SLACK_SUPPRESS_EMPTY :: bool
  SLACK_TITLE :: string
  SMTP_HOST :: string
  SMTP_PORT :: int
  SMTP_USER :: string
  SMTP_PASS :: string
  EMAIL_FROM :: string
  EMAIL_TO :: string

text \<open>
  How the process ends when it does not run to the end of \<open>main\<close>: \<open>sys.exit(n)\<close>, or
  an exception. An exception that nothing catches ends the interpreter with status 1,
  and so does the handler around \<open>main()\<close>, which catches \<open>Exception\<close> (not
  \<open>SystemExit\<close>) and calls \<open>sys.exit(1)\<close>.
\<close>

datatype abort = SysExit nat | Raised py_error

fun exit_status :: "abort + unit \<Rightarrow> nat" where
  "exit_status (Inl (SysExit n)) = n"
| "exit_status (Inl (Raised e)) = 1"
| "exit_status (Inr u) = 0"

text \<open>
  The module-level code, lines 24 to 53, in its order: \<open>TARGETS_URL\<close> unset or empty
  exits with 2; then the settings are read, and each \<open>int(...)\<close> raises \<open>ValueError\<close>
  on a value that is no integer.
  \<^verbatim>\<open>
  MONITORED_HOSTS = [h.strip().lower()
      for h in os.getenv("MONITORED_HOSTS", "").split(",") if h.strip()]
  \<close>
\<close>

definition load_config :: "env \<Rightarrow> abort + config" where
  "load_config e =
     (case e ''TARGETS_URL'' of
        None \<Rightarrow> Inl (SysExit 2)
      | Some url \<Rightarrow>
          if url = [] then Inl (SysExit 2)
          else
            (case py_int (getenv e ''SLACK_EXAMPLES_PER_HOST'' ''2'') of
               Inl err \<Rightarrow> Inl (Raised err)
             | Inr examples_per_host \<Rightarrow>
            (case py_int (getenv e ''SLACK_MAX_HOSTS'' ''10'') of
               Inl err \<Rightarrow> Inl (Raised err)
             | Inr max_hosts \<Rightarrow>
            (case py_int (getenv e ''SMTP_PORT'' ''587'') of
               Inl err \<Rightarrow> Inl (Raised err)
             | Inr smtp_port \<Rightarrow>
                 Inr \<lparr> URL = url,
                       MONITORED_HOSTS =
                         map (\<lambda>h. py_lower (py_strip h))
                           (filter (\<lambda>h. py_strip h \<noteq> [])
                              (py_split CHR '','' (getenv e ''MONITORED_HOSTS'' []))),
                       USE_STATE = (getenv e ''USE_STATE'' ''0'' = ''1''),
                       SLACK_WEBHOOK = py_strip (getenv e ''SLACK_WEBHOOK_URL'' []),
                       SLACK_SUMMARY_ONLY = (getenv e ''SLACK_SUMMARY_ONLY'' ''1'' = ''1''),
                       SLACK_EXAMPLES_PER_HOST = examples_per_host,
                       SLACK_MAX_HOSTS = max_hosts,
                       SLACK_SUPPRESS_EMPTY = (getenv e ''SLACK_SUPPRESS_EMPTY'' ''1'' = ''1''),
                       SLACK_TITLE = getenv e ''SLACK_TITLE'' ''Target watcher'',
                       SMTP_HOST = py_strip (getenv e ''SMTP_HOST'' []),
                       SMTP_PORT = smtp_port,
                       SMTP_USER = py_strip (getenv e ''SMTP_USER'' []),
                       SMTP_PASS = py_strip (getenv e ''SMTP_PASS'' []),
                       EMAIL_FROM = py_strip (getenv e ''EMAIL_FROM'' []),
                       EMAIL_TO = py_strip (getenv e ''EMAIL_TO'' []) \<rparr>))))"

section \<open>The world outside the program\<close>

text \<open>
  The state dict of the program: the dict under the key \<open>seen_request_ids\<close> (absent when
  the state has no such key), and the other entries of the state, which the program
  never reads. A state file that parses to JSON of another shape (no object, or an
  entry \<open>seen_request_ids\<close> that is no object) is outside this model.
\<close>

record state =
  seen_request_ids :: "seen_dict option"
  other_entries :: pydict

text \<open>
  The state file: missing; present, but \<open>read_text\<close> or \<open>json.loads\<close> raises; or
  present with a content that \<open>json.loads\<close> turns into a state.
\<close>

datatype state_file = NoFile | Unreadable | Parsed state

text \<open>
  The outcome of \<open>requests.get(url)\<close>, \<open>raise_for_status()\<close> and \<open>r.json()\<close>: a
  \<open>RequestException\<close> with its message, or the decoded body. The outcome of a POST to
  the webhook: accepted, answered with an error status, or a transport error (each
  error with its message). The outcome of the SMTP session: delivered, or an exception
  at some step of it.
\<close>

datatype fetch_result = FetchFailed string | FetchJson pyval

datatype post_result = PostOk | PostHttpError string | PostTransportError string

datatype smtp_result = SmtpOk | SmtpFailed string

record world =
  state_file :: state_file
  feed :: fetch_result
  slack :: post_result
  smtp :: smtp_result
  hostname :: string

text \<open>
  What the program does to the world, in order: the network calls, the write of the
  state file, and what it prints. A printed line whose text is fixed is \<open>Stdout\<close> or
  \<open>Stderr\<close> with the text; where the program prints an exception after a prefix,
  \<open>StderrError\<close> holds the prefix and the exception (the libraries choose the text of
  an exception). An SMTP event is the attempt to open the session,
  with the message it would send and the login (when user and password are set).
\<close>

record email_message =
  msg_from :: string
  msg_to :: string
  msg_subject :: string
  msg_body :: string

datatype event =
    HttpGet string
  | SlackPost string string
  | SmtpSession string int "(string \<times> string) option" email_message
  | StateWrite state
  | Stdout string
  | Stderr string
  | StderrError string py_error

section \<open>State handling\<close>

text \<open>
  \<^verbatim>\<open>
  def load_state() -> Dict[str, Any]:
      if not USE_STATE:
          return {"seen_request_ids": {}}
      if STATE_FILE.exists():
          try:
              return json.loads(STATE_FILE.read_text(encoding="utf-8"))
          except Exception:
              pass
      return {"seen_request_ids": {}}
  \<close>
\<close>

definition empty_state :: state where
  "empty_state = \<lparr> seen_request_ids = Some [], other_entries = [] \<rparr>"

definition load_state :: "config \<Rightarrow> state_file \<Rightarrow> state" where
  "load_state cfg f =
     (if \<not> USE_STATE cfg then empty_state
      else case f of
             NoFile \<Rightarrow> empty_state
           | Unreadable \<Rightarrow> empty_state
           | Parsed s \<Rightarrow> s)"

text \<open>
  What \<open>json.loads\<close> reads back from what \<open>json.dumps\<close> wrote: \<open>json.dumps\<close> writes
  every key of a dict as a string (\<open>str(n)\<close> for an integer, \<open>true\<close>, \<open>false\<close> and
  \<open>null\<close>), and \<open>json.loads\<close> builds the dict entry by entry, so that a key written
  twice keeps its first place and its last value.
\<close>

fun json_key :: "key \<Rightarrow> string" where
  "json_key (KStr s) = s"
| "json_key (KInt n) = str_int n"
| "json_key (KBool b) = (if b then ''true'' else ''false'')"
| "json_key KNone = ''null''"

definition json_seen :: "seen_dict \<Rightarrow> seen_dict" where
  "json_seen d = foldl (\<lambda>acc kv. seen_setitem acc (KStr (json_key (fst kv))) (snd kv)) [] d"

definition json_state :: "state \<Rightarrow> state" where
  "json_state s = s \<lparr> seen_request_ids := map_option json_seen (seen_request_ids s) \<rparr>"

text \<open>
  \<^verbatim>\<open>
  def save_state(state: Dict[str, Any]) -> None:
      if not USE_STATE:
          return
      seen = state.get("seen_request_ids", {})
      if len(seen) > 50000:
          for k in list(seen.keys())[:10000]:
              del seen[k]
          state["seen_request_ids"] = seen
      STATE_FILE.write_text(json.dumps(state, ...), encoding="utf-8")
  \<close>
  \<open>evict\<close> is the loop of deletions; \<open>save_state\<close> returns the events and the state
  file after the call. The write itself is taken to succeed.
\<close>

definition evict :: "seen_dict \<Rightarrow> seen_dict" where
  "evict seen = foldl seen_delitem seen (take 10000 (map fst seen))"

definition evicted_state :: "state \<Rightarrow> state" where
  "evicted_state st =
     (let seen = (case seen_request_ids st of None \<Rightarrow> [] | Some d \<Rightarrow> d)
      in if length seen > 50000 then st \<lparr> seen_request_ids := Some (evict seen) \<rparr> else st)"

definition save_state :: "config \<Rightarrow> state_file \<Rightarrow> state \<Rightarrow> event list \<times> state_file" where
  "save_state cfg f st =
     (if \<not> USE_STATE cfg then ([], f)
      else let written = json_state (evicted_state st)
           in ([StateWrite written], Parsed written))"

section \<open>Reports\<close>

type_synonym target = pydict

text \<open>
  \<^verbatim>\<open>
  def format_hits(hits):
      lines = []
      for t in hits:
          host = t.get("host")
          path = t.get("path", "")
          method = t.get("method", "") or t.get("type", "")
          typ = t.get("type", "")
          port = t.get("port", "")
          rid = t.get("request_id", "")
          lines.append(f"- {host}  {method or typ} {path or ''} (port {port})  request_id={rid}")
      return "\n".join(lines)
  \<close>
\<close>

definition format_hit :: "target \<Rightarrow> string" where
  "format_hit t =
     (let host = dict_get t ''host'';
          path = dict_get_default t ''path'' (PStr []);
          method = py_or (dict_get_default t ''method'' (PStr []))
                         (dict_get_default t ''type'' (PStr []));
          typ = dict_get_default t ''type'' (PStr []);
          port = dict_get_default t ''port'' (PStr []);
          rid = dict_get_default t ''request_id'' (PStr [])
      in ''- '' @ py_str host @ ''  '' @ py_str (py_or method typ) @ '' ''
         @ py_str (py_or path (PStr [])) @ '' (port '' @ py_str port
         @ '')  request_id='' @ py_str rid)"

definition format_hits :: "target list \<Rightarrow> string" where
  "format_hits hits = py_join [CHR 0x0A] (map format_hit hits)"

text \<open>
  \<^verbatim>\<open>
  def summarize_hits_by_host(hits):
      groups = defaultdict(lambda: {"count": 0, "examples": []})
      for t in hits:
          host = normalize_host(t.get("host", ""))
          method = (t.get("method") or t.get("type") or "").upper()
          path = t.get("path") or ""
          ex = (method + " " + path).strip()
          groups[host]["count"] += 1
          if ex and len(groups[host]["examples"]) < SLACK_EXAMPLES_PER_HOST:
              groups[host]["examples"].append(ex)
      return groups
  \<close>
  The groups are a dict from the host to the group, in the order in which the hosts
  came first. \<open>.upper()\<close> on a true value that is no string raises \<open>AttributeError\<close>,
  and adding one to a string raises \<open>TypeError\<close>.
\<close>

record group =
  count :: int
  examples :: "string list"

type_synonym groups = "(string \<times> group) list"

definition upper_any :: "pyval \<Rightarrow> py_error + string" where
  "upper_any v = (case v of PStr s \<Rightarrow> Inr (py_upper s) | _ \<Rightarrow> Inl AttributeError)"

definition concat_any :: "string \<Rightarrow> pyval \<Rightarrow> py_error + string" where
  "concat_any s v = (case v of PStr p \<Rightarrow> Inr (s @ p) | _ \<Rightarrow> Inl TypeError)"

definition groups_get :: "groups \<Rightarrow> string \<Rightarrow> group" where
  "groups_get gs host =
     (case map_of gs host of None \<Rightarrow> \<lparr> count = 0, examples = [] \<rparr> | Some g \<Rightarrow> g)"

fun groups_set :: "groups \<Rightarrow> string \<Rightarrow> group \<Rightarrow> groups" where
  "groups_set [] host g = [(host, g)]"
| "groups_set (hg # gs) host g =
     (if fst hg = host then (host, g) # gs else hg # groups_set gs host g)"

fun summarize_loop :: "config \<Rightarrow> target list \<Rightarrow> groups \<Rightarrow> py_error + groups" where
  "summarize_loop cfg [] gs = Inr gs"
| "summarize_loop cfg (t # hits) gs =
     (case normalize_host_any (dict_get_default t ''host'' (PStr [])) of
        Inl e \<Rightarrow> Inl e
      | Inr host \<Rightarrow>
     (case upper_any (py_or (dict_get t ''method'') (py_or (dict_get t ''type'') (PStr []))) of
        Inl e \<Rightarrow> Inl e
      | Inr method \<Rightarrow>
     (case concat_any (method @ '' '') (py_or (dict_get t ''path'') (PStr [])) of
        Inl e \<Rightarrow> Inl e
      | Inr joined \<Rightarrow>
          let ex = py_strip joined;
              g = groups_get gs host;
              g1 = g \<lparr> count := count g + 1 \<rparr>;
              g2 = (if ex \<noteq> [] \<and> int (length (examples g1)) < SLACK_EXAMPLES_PER_HOST cfg
                    then g1 \<lparr> examples := examples g1 @ [ex] \<rparr> else g1)
          in summarize_loop cfg hits (groups_set gs host g2))))"

definition summarize_hits_by_host :: "config \<Rightarrow> target list \<Rightarrow> py_error + groups" where
  "summarize_hits_by_host cfg hits = summarize_loop cfg hits []"

text \<open>
  \<^verbatim>\<open>
  def format_compact_slack(hits, url):
      groups = summarize_hits_by_host(hits)
      total = sum(g["count"] for g in groups.values())
      unique_hosts = len(groups)
      lines = [
        ":rotating_light: Oh noes, we might be under attack soon! :rotating_light:",
        f"*{SLACK_TITLE}:* {total} new hits / {unique_hosts} hosts\n{url}" ]
      items = sorted(groups.items(), key=lambda kv: kv[1]["count"], reverse=True)
      shown = 0
      for host, info in items:
          if shown >= SLACK_MAX_HOSTS:
              break
          examples = info["examples"]
          ex_str = ", ".join(examples) if examples else ""
          if ex_str:
              lines.append(f"(bullet) *{host}* (dash) {info['count']} hits (e.g. {ex_str})")
          else:
              lines.append(f"(bullet) *{host}* (dash) {info['count']} hits")
          shown += 1
      if unique_hosts > shown:
          lines.append(f"(ellipsis)and {unique_hosts - shown} more hosts.")
      return "\n".join(lines)
  \<close>
  The bullet, the dash and the ellipsis of the source are the characters U+2022,
  U+2014 and U+2026, here in UTF-8. \<open>sorted\<close> is stable, also with \<open>reverse=True\<close>:
  groups of equal count keep their order.
\<close>

definition bullet :: string where
  "bullet = [CHR 0xE2, CHR 0x80, CHR 0xA2]"

definition dash :: string where
  "dash = [CHR 0xE2, CHR 0x80, CHR 0x94]"

definition ellipsis :: string where
  "ellipsis = [CHR 0xE2, CHR 0x80, CHR 0xA6]"

definition banner_line :: string where
  "banner_line = '':rotating_light: Oh noes, we might be under attack soon! :rotating_light:''"

definition header_line :: "config \<Rightarrow> int \<Rightarrow> nat \<Rightarrow> string \<Rightarrow> string" where
  "header_line cfg total_hits unique_hosts url =
     ''*'' @ SLACK_TITLE cfg @ '':* '' @ str_int total_hits @ '' new hits / ''
     @ str_int (int unique_hosts) @ '' hosts'' @ [CHR 0x0A] @ url"

definition host_line :: "string \<times> group \<Rightarrow> string" where
  "host_line item =
     (let host = fst item; info = snd item;
          ex_str = (if examples info \<noteq> [] then py_join '', '' (examples info) else [])
      in if ex_str \<noteq> []
         then bullet @ '' *'' @ host @ ''* '' @ dash @ '' '' @ str_int (count info)
              @ '' hits (e.g. '' @ ex_str @ '')''
         else bullet @ '' *'' @ host @ ''* '' @ dash @ '' '' @ str_int (count info) @ '' hits'')"

definition more_line :: "int \<Rightarrow> string" where
  "more_line n = ellipsis @ ''and '' @ str_int n @ '' more hosts.''"

definition sorted_items :: "groups \<Rightarrow> groups" where
  "sorted_items gs = sort_key (\<lambda>kv. - count (snd kv)) gs"

fun compact_loop :: "config \<Rightarrow> groups \<Rightarrow> string list \<Rightarrow> int \<Rightarrow> string list \<times> int" where
  "compact_loop cfg [] lines shown = (lines, shown)"
| "compact_loop cfg (item # items) lines shown =
     (if shown \<ge> SLACK_MAX_HOSTS cfg then (lines, shown)
      else compact_loop cfg items (lines @ [host_line item]) (shown + 1))"

definition compact_lines :: "config \<Rightarrow> groups \<Rightarrow> string \<Rightarrow> string list" where
  "compact_lines cfg gs url =
     (let total_hits = sum_list (map (\<lambda>kv. count (snd kv)) gs);
          unique_hosts = length gs;
          lines0 = [banner_line, header_line cfg total_hits unique_hosts url];
          items = sorted_items gs;
          (lines1, shown) = compact_loop cfg items lines0 0
      in if int unique_hosts > shown
         then lines1 @ [more_line (int unique_hosts - shown)]
         else lines1)"

definition format_compact_slack :: "config \<Rightarrow> target list \<Rightarrow> string \<Rightarrow> py_error + string" where
  "format_compact_slack cfg hits url =
     (case summarize_hits_by_host cfg hits of
        Inl e \<Rightarrow> Inl e
      | Inr gs \<Rightarrow> Inr (py_join [CHR 0x0A] (compact_lines cfg gs url)))"

section \<open>Fetching the feed\<close>

text \<open>
  \<^verbatim>\<open>
  def fetch_targets(url):
      try:
          r = requests.get(url, timeout=30)
          r.raise_for_status()
          data = r.json()
          return data.get("targets", [])
      except requests.RequestException as e:
          error_msg = f"Failed to fetch targets from {url}: {str(e)}"
          print(f"ERROR: {error_msg}", file=sys.stderr)
          if SLACK_WEBHOOK:
              try:
                  text = (":warning: Target Watcher Error :warning:\n\n"
                          f"*{SLACK_TITLE}*: {error_msg}\n"
                          f"_host: {socket.gethostname()}_")
                  requests.post(SLACK_WEBHOOK, json={"text": text}, timeout=15)
              except Exception as slack_e:
                  print(f"ERROR: Failed to send error notification to Slack: {slack_e}", ...)
          raise
  \<close>
  \<open>data.get\<close> on a body that is no dict raises \<open>AttributeError\<close>, which the handler
  does not catch. The POST of the handler has no \<open>raise_for_status\<close>: only a transport
  error raises there.
\<close>

definition fetch_targets :: "config \<Rightarrow> world \<Rightarrow> string \<Rightarrow> event list \<times> (py_error + pyval)" where
  "fetch_targets cfg w url =
     (case feed w of
        FetchJson data \<Rightarrow>
          ([HttpGet url],
           (case data of
              PDict d \<Rightarrow> Inr (dict_get_default d ''targets'' (PList []))
            | _ \<Rightarrow> Inl AttributeError))
      | FetchFailed msg \<Rightarrow>
          (let error_msg = ''Failed to fetch targets from '' @ url @ '': '' @ msg;
               text = '':warning: Target Watcher Error :warning:'' @ [CHR 0x0A, CHR 0x0A]
                      @ ''*'' @ SLACK_TITLE cfg @ ''*: '' @ error_msg @ [CHR 0x0A]
                      @ ''_host: '' @ hostname w @ ''_''
           in ([HttpGet url, Stderr (''ERROR: '' @ error_msg)]
               @ (if SLACK_WEBHOOK cfg \<noteq> []
                  then SlackPost (SLACK_WEBHOOK cfg) text
                       # (case slack w of
                            PostTransportError m \<Rightarrow>
                              [StderrError ''ERROR: Failed to send error notification to Slack: ''
                                 (RequestException m)]
                          | _ \<Rightarrow> [])
                  else []),
               Inl (RequestException msg))))"

section \<open>Notifications\<close>

text \<open>
  \<^verbatim>\<open>
  def notify_slack(hits):
      if not SLACK_WEBHOOK:
          return
      if not hits and SLACK_SUPPRESS_EMPTY:
          return
      try:
          if SLACK_SUMMARY_ONLY:
              text = format_compact_slack(hits, URL or "")
          else:
              hostname = socket.gethostname()
              text = (":rotating_light: Oh noes, we might be under attack soon! :rotating_light:\n\n"
                      f"*{SLACK_TITLE}:* {len(hits)} new match(es) on `{URL}`\n"
                      f"_host: {hostname}_\n\n"
                      f"{format_hits(hits)}")
          requests.post(SLACK_WEBHOOK, json={"text": text}, timeout=15).raise_for_status()
      except Exception as e:
          print(f"Slack notify failed: {e}", file=sys.stderr)
  \<close>
  \<open>slack_try\<close> is the body of the \<open>try\<close>, which can raise; \<open>notify_slack\<close> returns what
  the function raises, if anything, to its caller.
\<close>

definition slack_text :: "config \<Rightarrow> world \<Rightarrow> target list \<Rightarrow> py_error + string" where
  "slack_text cfg w hits =
     (if SLACK_SUMMARY_ONLY cfg then format_compact_slack cfg hits (URL cfg)
      else Inr (banner_line @ [CHR 0x0A, CHR 0x0A]
                @ ''*'' @ SLACK_TITLE cfg @ '':* '' @ str_int (int (length hits))
                @ '' new match(es) on '' @ [CHR 0x60] @ URL cfg @ [CHR 0x60, CHR 0x0A]
                @ ''_host: '' @ hostname w @ ''_'' @ [CHR 0x0A, CHR 0x0A]
                @ format_hits hits))"

definition post_raises :: "post_result \<Rightarrow> py_error + unit" where
  "post_raises r =
     (case r of
        PostOk \<Rightarrow> Inr ()
      | PostHttpError m \<Rightarrow> Inl (RequestException m)
      | PostTransportError m \<Rightarrow> Inl (RequestException m))"

definition slack_try :: "config \<Rightarrow> world \<Rightarrow> target list \<Rightarrow> event list \<times> (py_error + unit)" where
  "slack_try cfg w hits =
     (case slack_text cfg w hits of
        Inl e \<Rightarrow> ([], Inl e)
      | Inr text \<Rightarrow> ([SlackPost (SLACK_WEBHOOK cfg) text], post_raises (slack w)))"

definition notify_slack :: "config \<Rightarrow> world \<Rightarrow> target list \<Rightarrow> event list \<times> (py_error + unit)" where
  "notify_slack cfg w hits =
     (if SLACK_WEBHOOK cfg = [] then ([], Inr ())
      else if hits = [] \<and> SLACK_SUPPRESS_EMPTY cfg then ([], Inr ())
      else let (evs, r) = slack_try cfg w hits
           in case r of
                Inl e \<Rightarrow> (evs @ [StderrError ''Slack notify failed: '' e], Inr ())
              | Inr u \<Rightarrow> (evs, Inr ()))"

text \<open>
  \<^verbatim>\<open>
  def notify_email(hits):
      if not (SMTP_HOST and EMAIL_FROM and EMAIL_TO):
          return
      subject = f"[watcher] {len(hits)} new match(es)"
      body = (f"{len(hits)} new match(es) found while checking {URL}\n\n"
              f"Monitored hosts: {', '.join(MONITORED_HOSTS)}\n\n"
              f"{format_hits(hits)}\n")
      msg = EmailMessage()
      msg["From"] = EMAIL_FROM; msg["To"] = EMAIL_TO; msg["Subject"] = subject
      msg.set_content(body)
      try:
          with smtplib.SMTP(SMTP_HOST, SMTP_PORT, timeout=30) as s:
              s.starttls()
              if SMTP_USER and SMTP_PASS:
                  s.login(SMTP_USER, SMTP_PASS)
              s.send_message(msg)
      except Exception as e:
          print(f"Email notify failed: {e}", file=sys.stderr)
  \<close>
  Building the message is taken to succeed.
\<close>

definition email_of :: "config \<Rightarrow> target list \<Rightarrow> email_message" where
  "email_of cfg hits =
     \<lparr> msg_from = EMAIL_FROM cfg,
       msg_to = EMAIL_TO cfg,
       msg_subject = ''[watcher] '' @ str_int (int (length hits)) @ '' new match(es)'',
       msg_body = str_int (int (length hits)) @ '' new match(es) found while checking ''
                  @ URL cfg @ [CHR 0x0A, CHR 0x0A]
                  @ ''Monitored hosts: '' @ py_join '', '' (MONITORED_HOSTS cfg)
                  @ [CHR 0x0A, CHR 0x0A]
                  @ format_hits hits @ [CHR 0x0A] \<rparr>"

definition smtp_try :: "config \<Rightarrow> world \<Rightarrow> email_message \<Rightarrow> event list \<times> (py_error + unit)" where
  "smtp_try cfg w msg =
     ([SmtpSession (SMTP_HOST cfg) (SMTP_PORT cfg)
         (if SMTP_USER cfg \<noteq> [] \<and> SMTP_PASS cfg \<noteq> []
          then Some (SMTP_USER cfg, SMTP_PASS cfg) else None)
         msg],
      (case smtp w of SmtpOk \<Rightarrow> Inr () | SmtpFailed m \<Rightarrow> Inl (SMTPException m)))"

definition notify_email :: "config \<Rightarrow> world \<Rightarrow> target list \<Rightarrow> event list \<times> (py_error + unit)" where
  "notify_email cfg w hits =
     (if \<not> (SMTP_HOST cfg \<noteq> [] \<and> EMAIL_FROM cfg \<noteq> [] \<and> EMAIL_TO cfg \<noteq> []) then ([], Inr ())
      else let (evs, r) = smtp_try cfg w (email_of cfg hits)
           in case r of
                Inl e \<Rightarrow> (evs @ [StderrError ''Email notify failed: '' e], Inr ())
              | Inr u \<Rightarrow> (evs, Inr ()))"

section \<open>The cycle\<close>

text \<open>
  The identifier of a record, line 248:
  \<^verbatim>\<open>
  rid = t.get("request_id") or f"{host}:{t.get('path','')}:{t.get('type','')}:{t.get('method','')}"
  \<close>
  where \<open>host = t.get("host")\<close>.
\<close>

definition derived_id :: "target \<Rightarrow> string" where
  "derived_id t =
     py_str (dict_get t ''host'') @ '':''
     @ py_str (dict_get_default t ''path'' (PStr [])) @ '':''
     @ py_str (dict_get_default t ''type'' (PStr [])) @ '':''
     @ py_str (dict_get_default t ''method'' (PStr []))"

definition request_id :: "target \<Rightarrow> pyval" where
  "request_id t = py_or (dict_get t ''request_id'') (PStr (derived_id t))"

text \<open>
  The loop of \<open>main\<close>, lines 244 to 252, over the entries of the feed, with the hits
  and the dict of seen ids so far:
  \<^verbatim>\<open>
  for t in targets:
      if not isinstance(t, dict):
          continue
      host = t.get("host")
      rid = ...
      if host and host_matches(MONITORED_HOSTS, host):
          if rid not in seen:
              hits.append(t)
              seen[rid] = True
  \<close>
\<close>

fun main_loop ::
  "config \<Rightarrow> pyval list \<Rightarrow> target list \<Rightarrow> seen_dict \<Rightarrow> py_error + (target list \<times> seen_dict)"
where
  "main_loop cfg [] hits seen = Inr (hits, seen)"
| "main_loop cfg (x # targets) hits seen =
     (case x of
        PDict t \<Rightarrow>
          (let host = dict_get t ''host'';
               rid = request_id t
           in if truthy host
              then (case host_matches_any (MONITORED_HOSTS cfg) host of
                      Inl e \<Rightarrow> Inl e
                    | Inr False \<Rightarrow> main_loop cfg targets hits seen
                    | Inr True \<Rightarrow>
                        (case key_of rid of
                           Inl e \<Rightarrow> Inl e
                         | Inr k \<Rightarrow>
                             if \<not> seen_contains seen k
                             then main_loop cfg targets (hits @ [t])
                                    (seen_setitem seen k (PBool True))
                             else main_loop cfg targets hits seen))
              else main_loop cfg targets hits seen)
      | _ \<Rightarrow> main_loop cfg targets hits seen)"

text \<open>
  What \<open>for t in targets\<close> iterates over: the items of a list, the keys of a dict, the
  characters of a string; another value raises \<open>TypeError\<close>.
\<close>

definition py_iter :: "pyval \<Rightarrow> py_error + pyval list" where
  "py_iter v =
     (case v of
        PList xs \<Rightarrow> Inr xs
      | PDict d \<Rightarrow> Inr (map (\<lambda>kv. PStr (fst kv)) d)
      | PStr s \<Rightarrow> Inr (map (\<lambda>c. PStr [c]) s)
      | _ \<Rightarrow> Inl TypeError)"

text \<open>
  \<^verbatim>\<open>
  def main():
      if not MONITORED_HOSTS:
          print("ERROR: Set MONITORED_HOSTS (e.g. MONITORED_HOSTS='op.fi,kela.fi')", file=sys.stderr)
          sys.exit(2)
      state = load_state()
      seen = state.setdefault("seen_request_ids", {})
      targets = fetch_targets(URL)
      hits = []
      for t in targets: ...
      if hits:
          notify_slack(hits)
          notify_email(hits)
          print(f"Found {len(hits)} new matches.")
          save_state(state)
      else:
          print("No new matches.")
          if not SLACK_SUPPRESS_EMPTY:
              notify_slack([])
  \<close>
  The result of \<open>main\<close>: the events in order, how it ended, and the state file after it.
  \<open>seen\<close> is the dict inside \<open>state\<close>, so the state that is saved holds the ids added
  by the loop.
\<close>

definition monitored_hosts_error :: string where
  "monitored_hosts_error =
     ''ERROR: Set MONITORED_HOSTS (e.g. MONITORED_HOSTS='' @ [CHR 0x27] @ ''op.fi,kela.fi''
     @ [CHR 0x27] @ '')''"

definition after_loop ::
  "config \<Rightarrow> world \<Rightarrow> state \<Rightarrow> target list \<Rightarrow> event list \<times> (abort + unit) \<times> state_file"
where
  "after_loop cfg w st hits =
     (if hits \<noteq> [] then
        (let (ev1, r1) = notify_slack cfg w hits
         in case r1 of
              Inl e \<Rightarrow> (ev1, Inl (Raised e), state_file w)
            | Inr u1 \<Rightarrow>
                (let (ev2, r2) = notify_email cfg w hits
                 in case r2 of
                      Inl e \<Rightarrow> (ev1 @ ev2, Inl (Raised e), state_file w)
                    | Inr u2 \<Rightarrow>
                        (let ev3 = [Stdout (''Found '' @ str_int (int (length hits))
                                            @ '' new matches.'')];
                             (ev4, f) = save_state cfg (state_file w) st
                         in (ev1 @ ev2 @ ev3 @ ev4, Inr (), f))))
      else
        (let ev1 = [Stdout ''No new matches.''];
             (ev2, r2) = (if \<not> SLACK_SUPPRESS_EMPTY cfg then notify_slack cfg w []
                          else ([], Inr ()))
         in case r2 of
              Inl e \<Rightarrow> (ev1 @ ev2, Inl (Raised e), state_file w)
            | Inr u \<Rightarrow> (ev1 @ ev2, Inr (), state_file w)))"

definition main :: "config \<Rightarrow> world \<Rightarrow> event list \<times> (abort + unit) \<times> state_file" where
  "main cfg w =
     (if MONITORED_HOSTS cfg = []
      then ([Stderr monitored_hosts_error], Inl (SysExit 2), state_file w)
      else
        (let state0 = load_state cfg (state_file w);
             seen0 = (case seen_request_ids state0 of None \<Rightarrow> [] | Some d \<Rightarrow> d);
             (ev0, fetched) = fetch_targets cfg w (URL cfg)
         in case fetched of
              Inl e \<Rightarrow> (ev0, Inl (Raised e), state_file w)
            | Inr targets \<Rightarrow>
                (case py_iter targets of
                   Inl e \<Rightarrow> (ev0, Inl (Raised e), state_file w)
                 | Inr ts \<Rightarrow>
                     (case main_loop cfg ts [] seen0 of
                        Inl e \<Rightarrow> (ev0, Inl (Raised e), state_file w)
                      | Inr (hits, seen) \<Rightarrow>
                          (let (ev1, r, f) =
                                 after_loop cfg w (state0 \<lparr> seen_request_ids := Some seen \<rparr>) hits
                           in (ev0 @ ev1, r, f))))))"

text \<open>
  The whole process: the module-level code, then
  \<^verbatim>\<open>
  try:
      main()
  except Exception as e:
      print(f"ERROR: {e}", file=sys.stderr)
      sys.exit(1)
  \<close>
  The result: the events, the exit status and the state file at the end.
\<close>

definition run_main :: "config \<Rightarrow> world \<Rightarrow> event list \<times> nat \<times> state_file" where
  "run_main cfg w =
     (let (evs, r, f) = main cfg w
      in case r of
           Inl (Raised e) \<Rightarrow> (evs @ [StderrError ''ERROR: '' e], 1, f)
         | _ \<Rightarrow> (evs, exit_status r, f))"

definition program :: "env \<Rightarrow> world \<Rightarrow> event list \<times> nat \<times> state_file" where
  "program e w =
     (case load_config e of
        Inl (SysExit n) \<Rightarrow> ([Stderr ''ERROR: Set TARGETS_URL in environment file''], n, state_file w)
      | Inl (Raised err) \<Rightarrow> ([StderrError ''Traceback'' err], 1, state_file w)
      | Inr cfg \<Rightarrow> run_main cfg w)"

section \<open>Notions for the proofs\<close>

text \<open>
  The key under which the loop of \<open>main\<close> looks up a record, in the form in which
  Python compares keys; and the invariant of that loop: the hits have pairwise
  different keys, and the key of every hit is in the dict of seen ids.
\<close>

definition rid_key :: "target \<Rightarrow> key" where
  "rid_key t = (case key_of (request_id t) of Inr k \<Rightarrow> key_canon k | Inl e \<Rightarrow> KNone)"

definition loop_inv :: "target list \<Rightarrow> seen_dict \<Rightarrow> bool" where
  "loop_inv hits seen \<longleftrightarrow>
     distinct (map rid_key hits) \<and> (\<forall>h \<in> set hits. seen_contains seen (rid_key h))"



fun is_network :: "event \<Rightarrow> bool" where
  "is_network (HttpGet u) = True"
| "is_network (SlackPost u t) = True"
| "is_network (SmtpSession h p l m) = True"
| "is_network e = False"

text \<open>
  The hits of a cycle and the dict of seen ids after its loop: what \<open>main\<close> computes
  from the state file and the feed before it notifies, or the exception that ends it.
\<close>

definition cycle_hits :: "config \<Rightarrow> world \<Rightarrow> py_error + (target list \<times> seen_dict)" where
  "cycle_hits cfg w =
     (case snd (fetch_targets cfg w (URL cfg)) of
        Inl e \<Rightarrow> Inl e
      | Inr targets \<Rightarrow>
          (case py_iter targets of
             Inl e \<Rightarrow> Inl e
           | Inr ts \<Rightarrow>
               main_loop cfg ts []
                 (case seen_request_ids (load_state cfg (state_file w)) of
                    None \<Rightarrow> [] | Some d \<Rightarrow> d)))"

text \<open>
  A dict of seen ids as \<open>json.loads\<close> returns it has strings as keys, and no key
  twice; \<open>dict_ok\<close> is the second property for the keys the program may add.
  \<open>persisted_seen\<close> is the dict of seen ids in the state file.
\<close>

fun is_str_key :: "key \<Rightarrow> bool" where
  "is_str_key (KStr s) = True"
| "is_str_key k = False"

definition str_keys :: "seen_dict \<Rightarrow> bool" where
  "str_keys d = list_all (\<lambda>kv. is_str_key (fst kv)) d"

definition dict_ok :: "seen_dict \<Rightarrow> bool" where
  "dict_ok d = distinct (map (\<lambda>kv. key_canon (fst kv)) d)"

definition persisted_seen :: "state_file \<Rightarrow> seen_dict" where
  "persisted_seen f =
     (case f of
        Parsed s \<Rightarrow> (case seen_request_ids s of Some d \<Rightarrow> d | None \<Rightarrow> [])
      | _ \<Rightarrow> [])"

section \<open>Concrete inputs\<close>

text \<open>A configuration and some records of a feed, for the examples below.\<close>

definition example_config :: config where
  "example_config =
     \<lparr> URL = ''https://feed.example/targets'',
       MONITORED_HOSTS = [''example.com''],
       USE_STATE = True,
       SLACK_WEBHOOK = ''https://hooks.example/T1'',
       SLACK_SUMMARY_ONLY = True,
       SLACK_EXAMPLES_PER_HOST = 2,
       SLACK_MAX_HOSTS = 10,
       SLACK_SUPPRESS_EMPTY = True,
       SLACK_TITLE = ''Target watcher'',
       SMTP_HOST = ''smtp.example'',
       SMTP_PORT = 587,
       SMTP_USER = [],
       SMTP_PASS = [],
       EMAIL_FROM = ''watcher@example.com'',
       EMAIL_TO = ''soc@example.com'' \<rparr>"

definition example_target :: "int \<Rightarrow> target" where
  "example_target port =
     [(''host'', PStr ''api.example.com''), (''path'', PStr ''/login''),
      (''method'', PStr ''GET''), (''port'', PInt port)]"

definition case_target :: "string \<Rightarrow> target" where
  "case_target h = [(''host'', PStr h), (''path'', PStr ''/admin''), (''type'', PStr ''http'')]"

definition example_feed :: pyval where
  "example_feed =
     PDict [(''targets'',
             PList [PDict (example_target 443), PStr ''noise'', PDict (example_target 8443),
                    PDict (case_target ''other.org'')])]"

definition example_world :: world where
  "example_world =
     \<lparr> state_file = NoFile,
       feed = FetchJson example_feed,
       slack = PostOk,
       smtp = SmtpOk,
       hostname = ''watcher-1'' \<rparr>"

text \<open>
  Two environments with \<open>TARGETS_URL\<close> set and no monitored host: one with no
  \<open>MONITORED_HOSTS\<close> and with \<open>SMTP_PORT=abc\<close>, one with only blank entries in
  \<open>MONITORED_HOSTS\<close>.
\<close>

definition bad_port_env :: env where
  "bad_port_env = [''TARGETS_URL'' \<mapsto> ''https://feed.example/targets'', ''SMTP_PORT'' \<mapsto> ''abc'']"

definition no_hosts_env :: env where
  "no_hosts_env = [''TARGETS_URL'' \<mapsto> ''https://feed.example/targets'', ''MONITORED_HOSTS'' \<mapsto> '' , '']"

text \<open>The dict of seen ids with the decimal numbers from \<open>a\<close> up to \<open>b - 1\<close> as ids.\<close>

definition numbered_seen :: "nat \<Rightarrow> nat \<Rightarrow> seen_dict" where
  "numbered_seen a b = map (\<lambda>i. (KStr (str_nat i), PBool True)) [a..<b]"

definition numbered_state :: "nat \<Rightarrow> nat \<Rightarrow> state" where
  "numbered_state a b = \<lparr> seen_request_ids = Some (numbered_seen a b), other_entries = [] \<rparr>"

section \<open>Properties of the host matcher\<close>

lemma py_startswith_prefix: "py_startswith s p = prefix p s"
  unfolding py_startswith_def prefix_def
  by (metis append_eq_conv_conj append_take_drop_id)

lemma py_endswith_suffix: "py_endswith s p = suffix p s"
proof
  assume "py_endswith s p"
  then have "s = take (length s - length p) s @ p"
    unfolding py_endswith_def by (metis append_take_drop_id)
  then show "suffix p s"
    unfolding suffix_def by blast
next
  assume "suffix p s"
  then obtain q where "s = q @ p"
    unfolding suffix_def by blast
  then show "py_endswith s p"
    unfolding py_endswith_def by simp
qed

lemma is_space_lower_char: "is_space (lower_char c) = is_space c"
  unfolding is_space_def lower_char_def Let_def by auto

lemma dropWhile_is_space_lower:
  "dropWhile is_space (map lower_char s) = map lower_char (dropWhile is_space s)"
  by (induction s) (simp_all add: is_space_lower_char)

lemma py_strip_lower: "py_strip (py_lower s) = py_lower (py_strip s)"
  unfolding py_strip_def py_lower_def
  by (simp add: dropWhile_is_space_lower rev_map)

lemma normalize_host_spec: "normalize_host h = spec_normalized (py_strip h)"
  unfolding normalize_host_def spec_normalized_def Let_def
  by (simp add: py_strip_lower py_startswith_prefix)

lemma host_matches_loop_iff:
  "host_matches_loop M host \<longleftrightarrow>
     (\<exists>m \<in> set M. host = normalize_host m \<or> suffix (''.'' @ normalize_host m) host)"
  by (induction M) (simp_all add: Let_def py_endswith_suffix)

text \<open>
  C3, as the specification states it, fails: the source trims white space before it
  compares, the specification's normalization does not. The host \<open>" example.com"\<close>
  (with a leading blank) matches the monitored list \<open>["example.com"]\<close> in the source,
  and does not under the specification's wording.
\<close>

theorem host_matches_untrimmed_counterexample:
  "host_matches [''example.com''] '' example.com''
   \<and> \<not> spec_host_matches [''example.com''] '' example.com''"
proof -
  have a: "host_matches [''example.com''] '' example.com''"
    by code_simp
  have b: "spec_normalized '' example.com'' = '' example.com''"
    by code_simp
  have c: "spec_normalized ''example.com'' = ''example.com''"
    by code_simp
  have d: "\<not> suffix ''.example.com'' '' example.com''"
    by (simp add: suffix_to_prefix)
  show ?thesis
    using a d unfolding spec_host_matches_def by (simp add: b c)
qed

text \<open>
  C3, amended: for every host string \<open>h\<close> and every monitored list \<open>M\<close>,
  \<open>host_matches M h\<close> is true if and only if some \<open>m\<close> in \<open>M\<close> has
  normalized \<open>h\<close> equal to normalized \<open>m\<close>, or normalized \<open>h\<close> ending with a dot
  followed by normalized \<open>m\<close>, where normalization trims surrounding white space,
  lowercases and then strips one leading \<open>www.\<close> label. With \<open>M = ["example.com"]\<close>
  the hosts \<open>example.com\<close>, \<open>api.example.com\<close> and \<open>www.example.com\<close> match and
  \<open>notexample.com\<close> does not.
\<close>

theorem host_matches_iff_trimmed:
  "(host_matches M h \<longleftrightarrow>
      (\<exists>m \<in> set M. spec_normalized (py_strip h) = spec_normalized (py_strip m)
                  \<or> suffix (''.'' @ spec_normalized (py_strip m)) (spec_normalized (py_strip h))))
   \<and> host_matches [''example.com''] ''example.com''
   \<and> host_matches [''example.com''] ''api.example.com''
   \<and> host_matches [''example.com''] ''www.example.com''
   \<and> \<not> host_matches [''example.com''] ''notexample.com''"
proof -
  have general: "host_matches M h \<longleftrightarrow>
      (\<exists>m \<in> set M. spec_normalized (py_strip h) = spec_normalized (py_strip m)
                  \<or> suffix (''.'' @ spec_normalized (py_strip m)) (spec_normalized (py_strip h)))"
    unfolding host_matches_def Let_def host_matches_loop_iff
    by (simp add: normalize_host_spec)
  have e1: "host_matches [''example.com''] ''example.com''"
    by code_simp
  have e2: "host_matches [''example.com''] ''api.example.com''"
    by code_simp
  have e3: "host_matches [''example.com''] ''www.example.com''"
    by code_simp
  have e4: "\<not> host_matches [''example.com''] ''notexample.com''"
    by code_simp
  from general e1 e2 e3 e4 show ?thesis
    by blast
qed

theorem host_matches_iff_trimmed_witness:
  "host_matches [''op.fi'', ''example.com''] '' WWW.Api.Example.COM ''
   \<and> suffix (''.'' @ spec_normalized (py_strip ''example.com''))
        (spec_normalized (py_strip '' WWW.Api.Example.COM ''))"
proof -
  have s: "spec_normalized (py_strip '' WWW.Api.Example.COM '') = ''api.example.com''"
    by code_simp
  have m1: "spec_normalized (py_strip ''op.fi'') = ''op.fi''"
    by code_simp
  have m2: "spec_normalized (py_strip ''example.com'') = ''example.com''"
    by code_simp
  have suf: "suffix ''.example.com'' ''api.example.com''"
    by (simp add: suffix_to_prefix)
  have "host_matches [''op.fi'', ''example.com''] '' WWW.Api.Example.COM ''"
    using host_matches_iff_trimmed [of "[''op.fi'', ''example.com'']" "'' WWW.Api.Example.COM ''"] suf
    by (simp add: s m1 m2)
  then show ?thesis
    using suf by (simp add: s m2)
qed

section \<open>Properties of the loop of the cycle\<close>

lemma key_canon_idem: "key_canon (key_canon k) = key_canon k"
  by (cases k) simp_all

lemma key_eq_canon: "key_eq a (key_canon b) = key_eq a b"
  by (simp add: key_eq_def key_canon_idem)

lemma seen_contains_canon: "seen_contains d (key_canon k) = seen_contains d k"
  by (simp add: seen_contains_def key_eq_canon)

lemma seen_contains_setitem:
  "seen_contains (seen_setitem d k v) k' \<longleftrightarrow> seen_contains d k' \<or> key_eq k k'"
  by (induction d) (auto simp: seen_contains_def key_eq_def)

lemma seen_setitem_new:
  "\<not> seen_contains d k \<Longrightarrow> seen_setitem d k v = d @ [(k, v)]"
  by (induction d) (auto simp: seen_contains_def)

lemma main_loop_inv:
  "main_loop cfg ts hits seen = Inr (hits', seen') \<Longrightarrow> loop_inv hits seen \<Longrightarrow> loop_inv hits' seen'"
proof (induction ts arbitrary: hits seen)
  case Nil
  then show ?case by simp
next
  case (Cons x ts)
  show ?case
  proof (cases x)
    case (PDict t)
    show ?thesis
    proof (cases "truthy (dict_get t ''host'')")
      case False
      with Cons PDict show ?thesis by (simp add: Let_def)
    next
      case True
      note host = this
      show ?thesis
      proof (cases "host_matches_any (MONITORED_HOSTS cfg) (dict_get t ''host'')")
        case (Inl e)
        with Cons.prems PDict host show ?thesis by (simp add: Let_def)
      next
        case (Inr b)
        show ?thesis
        proof (cases b)
          case False
          with Cons PDict host Inr show ?thesis by (simp add: Let_def)
        next
          case True
          note m = this
          show ?thesis
          proof (cases "key_of (request_id t)")
            case (Inl e)
            with Cons.prems PDict host Inr m show ?thesis by (simp add: Let_def)
          next
            case (Inr k)
            note key = this
            show ?thesis
            proof (cases "seen_contains seen k")
              case True
              with Cons PDict host \<open>host_matches_any _ _ = Inr b\<close> m key show ?thesis
                by (simp add: Let_def)
            next
              case False
              have rk: "rid_key t = key_canon k"
                by (simp add: rid_key_def key)
              have step: "main_loop cfg ts (hits @ [t]) (seen_setitem seen k (PBool True)) = Inr (hits', seen')"
                using Cons.prems(1) PDict host \<open>host_matches_any _ _ = Inr b\<close> m key False
                by (simp add: Let_def)
              have "loop_inv (hits @ [t]) (seen_setitem seen k (PBool True))"
              proof -
                have new: "rid_key h \<noteq> key_canon k" if "h \<in> set hits" for h
                  using that Cons.prems(2) False seen_contains_canon [of seen k]
                  unfolding loop_inv_def by metis
                have fresh: "key_canon k \<notin> rid_key ` set hits"
                proof
                  assume "key_canon k \<in> rid_key ` set hits"
                  then obtain h where "h \<in> set hits" and "key_canon k = rid_key h"
                    by (auto simp: image_iff)
                  with new [of h] show False
                    by simp
                qed
                have d: "distinct (map rid_key (hits @ [t]))"
                  using Cons.prems(2) fresh unfolding loop_inv_def by (simp add: rk)
                have self: "key_eq k (key_canon k)"
                  by (simp add: key_eq_def key_canon_idem)
                have c: "seen_contains (seen_setitem seen k (PBool True)) (rid_key h)"
                  if "h \<in> set (hits @ [t])" for h
                proof (cases "h \<in> set hits")
                  case True
                  with Cons.prems(2) show ?thesis
                    unfolding loop_inv_def by (simp add: seen_contains_setitem)
                next
                  case False
                  with that have "h = t" by simp
                  with self show ?thesis
                    by (simp add: seen_contains_setitem rk)
                qed
                show ?thesis
                  unfolding loop_inv_def using d c by blast
              qed
              with Cons.IH step show ?thesis by blast
            qed
          qed
        qed
      qed
    qed
  qed (use Cons in simp_all)
qed

lemma distinct_map_filter_le1:
  "distinct (map f xs) \<Longrightarrow> length (filter (\<lambda>x. f x = c) xs) \<le> Suc 0"
proof (induction xs)
  case Nil
  then show ?case by simp
next
  case (Cons a xs)
  show ?case
  proof (cases "f a = c")
    case True
    from Cons.prems have "f a \<notin> f ` set xs"
      by simp
    with True have "\<forall>x \<in> set xs. f x \<noteq> c"
      by blast
    then have "filter (\<lambda>x. f x = c) xs = []"
      by (simp add: filter_empty_conv)
    with True show ?thesis by simp
  next
    case False
    with Cons show ?thesis by simp
  qed
qed

lemma main_loop_hits_distinct:
  assumes "main_loop cfg ts [] seen = Inr (hits, seen')"
  shows "length (filter (\<lambda>h. request_id h = r) hits) \<le> 1"
proof -
  have "loop_inv hits seen'"
    using main_loop_inv [OF assms] by (simp add: loop_inv_def)
  then have d: "distinct (map rid_key hits)"
    by (simp add: loop_inv_def)
  define c where "c = (case key_of r of Inr k \<Rightarrow> key_canon k | Inl e \<Rightarrow> KNone)"
  have "length (filter (\<lambda>h. request_id h = r) hits) \<le> length (filter (\<lambda>h. rid_key h = c) hits)"
  proof -
    have "filter (\<lambda>h. request_id h = r) hits
          = filter (\<lambda>h. request_id h = r) (filter (\<lambda>h. rid_key h = c) hits)"
      by (auto simp: rid_key_def c_def intro: filter_cong)
    then show ?thesis
      by (metis length_filter_le)
  qed
  also have "\<dots> \<le> 1"
    using distinct_map_filter_le1 [OF d] by simp
  finally show ?thesis .
qed

section \<open>Identifiers of records\<close>

lemma derived_id_cong:
  assumes "map_of t1 ''host'' = map_of t2 ''host''"
    and "map_of t1 ''path'' = map_of t2 ''path''"
    and "map_of t1 ''type'' = map_of t2 ''type''"
    and "map_of t1 ''method'' = map_of t2 ''method''"
  shows "derived_id t1 = derived_id t2"
  using assms by (simp add: derived_id_def dict_get_def dict_get_default_def)

lemma request_id_derived:
  "\<not> truthy (dict_get t ''request_id'') \<Longrightarrow> request_id t = PStr (derived_id t)"
  by (simp add: request_id_def py_or_def)

lemma host_matches_any_str:
  "host_matches_any M (PStr h) = Inr (host_matches M h)"
  by (simp add: host_matches_any_def normalize_host_any_def host_matches_def py_or_def Let_def)

lemma host_matches_normalized:
  "normalize_host h1 = normalize_host h2 \<Longrightarrow> host_matches M h1 = host_matches M h2"
  by (simp add: host_matches_def Let_def)

lemma seen_contains_append:
  "seen_contains (d @ e) k \<longleftrightarrow> seen_contains d k \<or> seen_contains e k"
  by (auto simp: seen_contains_def list_ex_iff)

text \<open>
  C4: two records of the feed with the same host, path, type and method entries and no
  \<open>request_id\<close> entry get the same identifier, which is the derived string; and whatever
  the feed and the dict of seen ids, when the loop of the cycle ends, at most one hit
  has that identifier: the first of the two that is reported puts the identifier
  into the dict of seen ids, and the other is not reported.
\<close>

theorem same_fields_same_identifier:
  assumes "map_of t1 ''host'' = map_of t2 ''host''"
    and "map_of t1 ''path'' = map_of t2 ''path''"
    and "map_of t1 ''type'' = map_of t2 ''type''"
    and "map_of t1 ''method'' = map_of t2 ''method''"
    and "map_of t1 ''request_id'' = None"
    and "map_of t2 ''request_id'' = None"
  shows "request_id t1 = PStr (derived_id t1)
         \<and> request_id t2 = request_id t1
         \<and> (\<forall>cfg targets seen hits seen'.
               main_loop cfg targets [] seen = Inr (hits, seen')
               \<longrightarrow> length (filter (\<lambda>h. request_id h = request_id t1) hits) \<le> 1)"
proof -
  have r1: "request_id t1 = PStr (derived_id t1)"
    using assms(5) by (simp add: request_id_derived dict_get_def)
  have r2: "request_id t2 = PStr (derived_id t2)"
    using assms(6) by (simp add: request_id_derived dict_get_def)
  have same: "derived_id t1 = derived_id t2"
    using assms(1-4) by (rule derived_id_cong)
  show ?thesis
    using r1 r2 same main_loop_hits_distinct by simp
qed

theorem same_fields_same_identifier_witness:
  "request_id (example_target 443) = PStr ''api.example.com:/login::GET''
   \<and> request_id (example_target 8443) = request_id (example_target 443)
   \<and> main_loop example_config [PDict (example_target 443), PDict (example_target 8443)] [] []
       = Inr ([example_target 443], [(KStr ''api.example.com:/login::GET'', PBool True)])
   \<and> length (filter (\<lambda>h. request_id h = request_id (example_target 443)) [example_target 443]) \<le> 1"
proof -
  have run: "main_loop example_config [PDict (example_target 443), PDict (example_target 8443)] [] []
       = Inr ([example_target 443], [(KStr ''api.example.com:/login::GET'', PBool True)])"
    by code_simp
  have d: "derived_id (example_target 443) = ''api.example.com:/login::GET''"
    by code_simp
  have f: "map_of (example_target 443) k = map_of (example_target 8443) k" if "k \<noteq> ''port''" for k
    using that by (simp add: example_target_def)
  have n: "map_of (example_target p) ''request_id'' = None" for p
    by (simp add: example_target_def)
  note inst = same_fields_same_identifier [of "example_target 443" "example_target 8443",
      OF f f f f n n]
  have a: "request_id (example_target 443) = PStr ''api.example.com:/login::GET''"
    using inst d by simp
  have b: "request_id (example_target 8443) = request_id (example_target 443)"
    using inst by simp
  have c: "length (filter (\<lambda>h. request_id h = request_id (example_target 443)) [example_target 443]) \<le> 1"
    using inst run by blast
  from a b c run show ?thesis
    by blast
qed

text \<open>
  C9: a record with the entry \<open>request_id\<close> equal to the empty string is treated as a
  record without that entry: its identifier is the string derived from host, path,
  type and method, the same as that of a record without the entry and with the same
  four fields, and at most one hit of a cycle has that identifier.
\<close>

theorem empty_request_id_like_absent:
  assumes "map_of t1 ''request_id'' = Some (PStr [])"
    and "map_of t2 ''request_id'' = None"
    and "map_of t1 ''host'' = map_of t2 ''host''"
    and "map_of t1 ''path'' = map_of t2 ''path''"
    and "map_of t1 ''type'' = map_of t2 ''type''"
    and "map_of t1 ''method'' = map_of t2 ''method''"
  shows "request_id t1 = PStr (derived_id t1)
         \<and> request_id t1 = request_id t2
         \<and> (\<forall>cfg targets seen hits seen'.
               main_loop cfg targets [] seen = Inr (hits, seen')
               \<longrightarrow> length (filter (\<lambda>h. request_id h = request_id t2) hits) \<le> 1)"
proof -
  have r1: "request_id t1 = PStr (derived_id t1)"
    using assms(1) by (simp add: request_id_derived dict_get_def)
  have r2: "request_id t2 = PStr (derived_id t2)"
    using assms(2) by (simp add: request_id_derived dict_get_def)
  have same: "derived_id t1 = derived_id t2"
    using assms(3-6) by (rule derived_id_cong)
  show ?thesis
    using r1 r2 same main_loop_hits_distinct by simp
qed

theorem empty_request_id_like_absent_witness:
  "request_id ((''request_id'', PStr []) # example_target 443) = PStr ''api.example.com:/login::GET''
   \<and> request_id ((''request_id'', PStr []) # example_target 443) = request_id (example_target 443)
   \<and> main_loop example_config
        [PDict (example_target 443), PDict ((''request_id'', PStr []) # example_target 443)] [] []
       = Inr ([example_target 443], [(KStr ''api.example.com:/login::GET'', PBool True)])"
proof -
  have run: "main_loop example_config
        [PDict (example_target 443), PDict ((''request_id'', PStr []) # example_target 443)] [] []
       = Inr ([example_target 443], [(KStr ''api.example.com:/login::GET'', PBool True)])"
    by code_simp
  have d: "derived_id ((''request_id'', PStr []) # example_target 443) = ''api.example.com:/login::GET''"
    by code_simp
  have f: "map_of ((''request_id'', PStr []) # example_target 443) k = map_of (example_target 443) k"
    if "k \<noteq> ''request_id''" for k
    using that by simp
  have p: "map_of ((''request_id'', PStr []) # example_target 443) ''request_id'' = Some (PStr [])"
    by simp
  have n: "map_of (example_target 443) ''request_id'' = None"
    by (simp add: example_target_def)
  note inst = empty_request_id_like_absent
      [of "(''request_id'', PStr []) # example_target 443" "example_target 443", OF p n f f f f]
  have a: "request_id ((''request_id'', PStr []) # example_target 443) = PStr ''api.example.com:/login::GET''"
    using inst d by simp
  have b: "request_id ((''request_id'', PStr []) # example_target 443) = request_id (example_target 443)"
    using inst by blast
  from a b run show ?thesis
    by blast
qed

text \<open>
  C10: the derived identifier starts with the host as the feed gives it, while matching
  uses the normalized host. So two records without \<open>request_id\<close>, with the same path,
  type and method, whose hosts are different strings with the same normalization
  (they differ in letter case, in a leading \<open>www.\<close> or in white space around), and
  match the monitored list, get different identifiers; when neither identifier has
  been seen, the loop reports both as hits and adds both identifiers.
\<close>

theorem raw_host_in_identifier:
  assumes "dict_get t1 ''host'' = PStr h1" and "dict_get t2 ''host'' = PStr h2"
    and "h1 \<noteq> []" and "h2 \<noteq> []" and "h1 \<noteq> h2"
    and "normalize_host h1 = normalize_host h2"
    and "host_matches (MONITORED_HOSTS cfg) h1"
    and "\<not> truthy (dict_get t1 ''request_id'')" and "\<not> truthy (dict_get t2 ''request_id'')"
    and "map_of t1 ''path'' = map_of t2 ''path''"
    and "map_of t1 ''type'' = map_of t2 ''type''"
    and "map_of t1 ''method'' = map_of t2 ''method''"
    and "\<not> seen_contains seen (KStr (derived_id t1))"
    and "\<not> seen_contains seen (KStr (derived_id t2))"
  shows "derived_id t1 = h1 @ '':'' @ py_str (dict_get_default t1 ''path'' (PStr [])) @ '':''
                         @ py_str (dict_get_default t1 ''type'' (PStr [])) @ '':''
                         @ py_str (dict_get_default t1 ''method'' (PStr []))
         \<and> host_matches (MONITORED_HOSTS cfg) h2
         \<and> derived_id t1 \<noteq> derived_id t2
         \<and> main_loop cfg [PDict t1, PDict t2] [] seen
             = Inr ([t1, t2], seen @ [(KStr (derived_id t1), PBool True),
                                      (KStr (derived_id t2), PBool True)])"
proof -
  let ?rest = "\<lambda>t. '':'' @ py_str (dict_get_default t ''path'' (PStr [])) @ '':''
                         @ py_str (dict_get_default t ''type'' (PStr [])) @ '':''
                         @ py_str (dict_get_default t ''method'' (PStr []))"
  have d1: "derived_id t1 = h1 @ ?rest t1"
    using assms(1) by (simp add: derived_id_def py_str_def)
  have d2: "derived_id t2 = h2 @ ?rest t2"
    using assms(2) by (simp add: derived_id_def py_str_def)
  have rest: "?rest t1 = ?rest t2"
    using assms(10-12) by (simp add: dict_get_default_def)
  have ne: "derived_id t1 \<noteq> derived_id t2"
    using assms(5) unfolding d1 d2 rest by simp
  have m2: "host_matches (MONITORED_HOSTS cfg) h2"
    using assms(6,7) host_matches_normalized by blast
  have r1: "request_id t1 = PStr (derived_id t1)"
    using assms(8) by (rule request_id_derived)
  have r2: "request_id t2 = PStr (derived_id t2)"
    using assms(9) by (rule request_id_derived)
  have s1: "seen_setitem seen (KStr (derived_id t1)) (PBool True)
            = seen @ [(KStr (derived_id t1), PBool True)]"
    using assms(13) by (rule seen_setitem_new)
  have c2: "\<not> seen_contains (seen @ [(KStr (derived_id t1), PBool True)]) (KStr (derived_id t2))"
    using assms(14) ne by (simp add: seen_contains_append) (simp add: seen_contains_def key_eq_def)
  have s2: "seen_setitem (seen @ [(KStr (derived_id t1), PBool True)]) (KStr (derived_id t2)) (PBool True)
            = seen @ [(KStr (derived_id t1), PBool True), (KStr (derived_id t2), PBool True)]"
    using seen_setitem_new [OF c2] by simp
  have run: "main_loop cfg [PDict t1, PDict t2] [] seen
             = Inr ([t1, t2], seen @ [(KStr (derived_id t1), PBool True),
                                      (KStr (derived_id t2), PBool True)])"
    using assms(1-4,7,13) m2 c2
    by (simp add: Let_def host_matches_any_str r1 r2 s1 s2)
  show ?thesis
    using d1 m2 ne run by simp
qed

theorem raw_host_in_identifier_witness:
  "derived_id (case_target ''Example.com'') = ''Example.com:/admin:http:''
   \<and> derived_id (case_target ''www.example.com'') = ''www.example.com:/admin:http:''
   \<and> normalize_host ''Example.com'' = normalize_host ''www.example.com''
   \<and> main_loop example_config
        [PDict (case_target ''Example.com''), PDict (case_target ''www.example.com'')] [] []
       = Inr ([case_target ''Example.com'', case_target ''www.example.com''],
              [(KStr ''Example.com:/admin:http:'', PBool True),
               (KStr ''www.example.com:/admin:http:'', PBool True)])"
proof -
  have e1: "derived_id (case_target ''Example.com'') = ''Example.com:/admin:http:''"
    by code_simp
  have e2: "derived_id (case_target ''www.example.com'') = ''www.example.com:/admin:http:''"
    by code_simp
  have n: "normalize_host ''Example.com'' = normalize_host ''www.example.com''"
    by code_simp
  have m: "host_matches (MONITORED_HOSTS example_config) ''Example.com''"
    by code_simp
  have g: "dict_get (case_target h) ''host'' = PStr h" for h
    by (simp add: case_target_def dict_get_def)
  have q: "\<not> truthy (dict_get (case_target h) ''request_id'')" for h
    by (simp add: case_target_def dict_get_def)
  have f: "map_of (case_target ''Example.com'') k = map_of (case_target ''www.example.com'') k"
    if "k \<noteq> ''host''" for k
    using that by (simp add: case_target_def)
  have c: "\<not> seen_contains [] k" for k
    by (simp add: seen_contains_def)
  have "main_loop example_config
        [PDict (case_target ''Example.com''), PDict (case_target ''www.example.com'')] [] []
       = Inr ([case_target ''Example.com'', case_target ''www.example.com''],
              [] @ [(KStr (derived_id (case_target ''Example.com'')), PBool True),
                    (KStr (derived_id (case_target ''www.example.com'')), PBool True)])"
    using raw_host_in_identifier [of "case_target ''Example.com''" "''Example.com''"
        "case_target ''www.example.com''" "''www.example.com''" example_config "[]",
        OF g g _ _ _ n m q q f f f c c]
    by simp
  then show ?thesis
    using e1 e2 n by simp
qed

section \<open>Properties of the whole cycle\<close>






lemma notify_slack_returns: "snd (notify_slack cfg w hits) = Inr ()"
  by (simp add: notify_slack_def split_beta Let_def split: sum.splits)

lemma notify_email_returns: "snd (notify_email cfg w hits) = Inr ()"
  by (simp add: notify_email_def split_beta Let_def split: sum.splits)

lemma after_loop_eq:
  "after_loop cfg w st hits =
     (if hits \<noteq> []
      then (fst (notify_slack cfg w hits) @ fst (notify_email cfg w hits)
            @ [Stdout (''Found '' @ str_int (int (length hits)) @ '' new matches.'')]
            @ fst (save_state cfg (state_file w) st),
            Inr (), snd (save_state cfg (state_file w) st))
      else (Stdout ''No new matches.''
            # (if \<not> SLACK_SUPPRESS_EMPTY cfg then fst (notify_slack cfg w []) else []),
            Inr (), state_file w))"
proof -
  obtain e1 where n1: "notify_slack cfg w hits = (e1, Inr ())"
    using notify_slack_returns [of cfg w hits] by (cases "notify_slack cfg w hits") simp
  obtain e2 where n2: "notify_email cfg w hits = (e2, Inr ())"
    using notify_email_returns [of cfg w hits] by (cases "notify_email cfg w hits") simp
  obtain e3 where n3: "notify_slack cfg w [] = (e3, Inr ())"
    using notify_slack_returns [of cfg w "[]"] by (cases "notify_slack cfg w []") simp
  show ?thesis
    unfolding after_loop_def by (simp add: n1 n2 n3 split_beta Let_def)
qed






lemma run_main_eq:
  "run_main cfg w =
     (fst (main cfg w)
        @ (case fst (snd (main cfg w)) of Inl (Raised e) \<Rightarrow> [StderrError ''ERROR: '' e] | _ \<Rightarrow> []),
      exit_status (fst (snd (main cfg w))),
      snd (snd (main cfg w)))"
  by (simp add: run_main_def split_beta split: sum.splits abort.splits)







lemma main_eq:
  "main cfg w =
     (if MONITORED_HOSTS cfg = []
      then ([Stderr monitored_hosts_error], Inl (SysExit 2), state_file w)
      else case cycle_hits cfg w of
             Inl e \<Rightarrow> (fst (fetch_targets cfg w (URL cfg)), Inl (Raised e), state_file w)
           | Inr hs \<Rightarrow>
               (fst (fetch_targets cfg w (URL cfg))
                @ fst (after_loop cfg w
                         (load_state cfg (state_file w) \<lparr> seen_request_ids := Some (snd hs) \<rparr>)
                         (fst hs)),
                snd (after_loop cfg w
                         (load_state cfg (state_file w) \<lparr> seen_request_ids := Some (snd hs) \<rparr>)
                         (fst hs))))"
proof (cases "MONITORED_HOSTS cfg = []")
  case True
  then show ?thesis by (simp add: main_def)
next
  case False
  obtain ev0 fetched where f: "fetch_targets cfg w (URL cfg) = (ev0, fetched)"
    by (cases "fetch_targets cfg w (URL cfg)")
  show ?thesis
  proof (cases fetched)
    case (Inl e)
    with False f show ?thesis by (simp add: main_def cycle_hits_def)
  next
    case (Inr targets)
    note t = this
    show ?thesis
    proof (cases "py_iter targets")
      case (Inl e)
      with False f t show ?thesis by (simp add: main_def cycle_hits_def)
    next
      case (Inr ts)
      note ts = this
      show ?thesis
      proof (cases "main_loop cfg ts []
                 (case seen_request_ids (load_state cfg (state_file w)) of
                    None \<Rightarrow> [] | Some d \<Rightarrow> d)")
        case (Inl e)
        with False f t ts show ?thesis by (simp add: main_def cycle_hits_def Let_def)
      next
        case (Inr hs)
        with False f t ts show ?thesis
          by (cases hs) (simp add: main_def cycle_hits_def Let_def split_beta)
      qed
    qed
  qed
qed





section \<open>Notification sinks\<close>







lemma notify_slack_smtp:
  "notify_slack cfg (w\<lparr>smtp := q\<rparr>) hits = notify_slack cfg w hits"
  by (simp add: notify_slack_def slack_try_def slack_text_def cong: sum.case_cong)









section \<open>Configuration errors\<close>

lemma load_config_SysExit:
  "load_config e = Inl (SysExit n) \<longleftrightarrow>
     n = 2 \<and> (e ''TARGETS_URL'' = None \<or> e ''TARGETS_URL'' = Some [])"
  by (auto simp: load_config_def split: option.splits sum.splits)

lemma load_config_url:
  "(\<exists>n. load_config e = Inl (SysExit n)) \<longleftrightarrow>
     (e ''TARGETS_URL'' = None \<or> e ''TARGETS_URL'' = Some [])"
  using load_config_SysExit [of e] by blast

lemma run_main_exit_2:
  "fst (snd (run_main cfg w)) = 2 \<longleftrightarrow> MONITORED_HOSTS cfg = []"
proof (cases "MONITORED_HOSTS cfg = []")
  case True
  then show ?thesis by (simp add: run_main_eq main_eq)
next
  case False
  show ?thesis
  proof (cases "cycle_hits cfg w")
    case (Inl e)
    with False show ?thesis by (simp add: run_main_eq main_eq)
  next
    case (Inr hs)
    with False show ?thesis by (cases hs) (simp add: run_main_eq main_eq after_loop_eq)
  qed
qed

lemma run_main_no_hosts:
  "MONITORED_HOSTS cfg = [] \<Longrightarrow> run_main cfg w = ([Stderr monitored_hosts_error], 2, state_file w)"
  by (simp add: run_main_eq main_eq)

text \<open>
  C8, as the specification states it, fails: the settings are read at module level,
  before \<open>main\<close> looks at the monitored hosts, and \<open>int(...)\<close> of a setting that is no
  integer raises there. With \<open>TARGETS_URL\<close> set, no \<open>MONITORED_HOSTS\<close> and
  \<open>SMTP_PORT=abc\<close> the process ends with status 1, not 2.
\<close>

theorem malformed_port_counterexample:
  "bad_port_env ''TARGETS_URL'' = Some ''https://feed.example/targets''
   \<and> bad_port_env ''MONITORED_HOSTS'' = None
   \<and> fst (snd (program bad_port_env example_world)) = 1"
proof -
  have "load_config bad_port_env = Inl (Raised ValueError)"
    by code_simp
  then show ?thesis
    by (simp add: program_def bad_port_env_def)
qed

text \<open>
  C8, amended: the process exits with status 2 exactly when \<open>TARGETS_URL\<close> is unset or
  empty, or when the settings load (the three integer settings are integers) and the
  list of monitored hosts is empty; every run that exits with status 2, and every run
  that ends in the module-level code, makes no network call (no fetch of the feed, no
  POST to the webhook, no SMTP session) and leaves the state file as it is.
\<close>

theorem configuration_error_exits_2:
  "(fst (snd (program e w)) = 2 \<longleftrightarrow>
      (e ''TARGETS_URL'' = None \<or> e ''TARGETS_URL'' = Some []
       \<or> (\<exists>cfg. load_config e = Inr cfg \<and> MONITORED_HOSTS cfg = [])))
   \<and> (fst (snd (program e w)) = 2 \<longrightarrow>
         filter is_network (fst (program e w)) = [] \<and> snd (snd (program e w)) = state_file w)
   \<and> ((\<exists>a. load_config e = Inl a) \<longrightarrow>
         filter is_network (fst (program e w)) = [] \<and> snd (snd (program e w)) = state_file w)"
proof (cases "load_config e")
  case (Inl a)
  show ?thesis
  proof (cases a)
    case (SysExit n)
    with Inl have "n = 2" and "e ''TARGETS_URL'' = None \<or> e ''TARGETS_URL'' = Some []"
      using load_config_SysExit [of e n] by simp_all
    with Inl SysExit show ?thesis
      by (simp add: program_def)
  next
    case (Raised err)
    with Inl have "\<not> (e ''TARGETS_URL'' = None \<or> e ''TARGETS_URL'' = Some [])"
      using load_config_url [of e] by auto
    with Inl Raised show ?thesis
      by (simp add: program_def)
  qed
next
  case (Inr cfg)
  then have url: "\<not> (e ''TARGETS_URL'' = None \<or> e ''TARGETS_URL'' = Some [])"
    using load_config_url [of e] by auto
  from Inr have p: "program e w = run_main cfg w"
    by (simp add: program_def)
  show ?thesis
    using Inr url run_main_exit_2 [of cfg w] run_main_no_hosts [of cfg w]
    by (auto simp: p)
qed

theorem configuration_error_exits_2_witness:
  "load_config no_hosts_env =
     Inr \<lparr> URL = ''https://feed.example/targets'', MONITORED_HOSTS = [],
           USE_STATE = False, SLACK_WEBHOOK = [], SLACK_SUMMARY_ONLY = True,
           SLACK_EXAMPLES_PER_HOST = 2, SLACK_MAX_HOSTS = 10, SLACK_SUPPRESS_EMPTY = True,
           SLACK_TITLE = ''Target watcher'', SMTP_HOST = [], SMTP_PORT = 587, SMTP_USER = [],
           SMTP_PASS = [], EMAIL_FROM = [], EMAIL_TO = [] \<rparr>
   \<and> fst (snd (program no_hosts_env example_world)) = 2
   \<and> filter is_network (fst (program no_hosts_env example_world)) = []
   \<and> snd (snd (program no_hosts_env example_world)) = state_file example_world"
proof -
  have c: "load_config no_hosts_env =
     Inr \<lparr> URL = ''https://feed.example/targets'', MONITORED_HOSTS = [],
           USE_STATE = False, SLACK_WEBHOOK = [], SLACK_SUMMARY_ONLY = True,
           SLACK_EXAMPLES_PER_HOST = 2, SLACK_MAX_HOSTS = 10, SLACK_SUPPRESS_EMPTY = True,
           SLACK_TITLE = ''Target watcher'', SMTP_HOST = [], SMTP_PORT = 587, SMTP_USER = [],
           SMTP_PASS = [], EMAIL_FROM = [], EMAIL_TO = [] \<rparr>"
    by code_simp
  then have "\<exists>cfg. load_config no_hosts_env = Inr cfg \<and> MONITORED_HOSTS cfg = []"
    by simp
  with configuration_error_exits_2 [of no_hosts_env example_world] c show ?thesis
    by simp
qed

section \<open>Properties of the state store\<close>

lemma digits_value_snoc:
  "c \<noteq> CHR ''_'' \<Longrightarrow> digits_value (s @ [c]) = 10 * digits_value s + (int (of_char c) - 48)"
  by (simp add: digits_value_def)

lemma digit_char: "d < 10 \<Longrightarrow> (of_char (char_of (48 + d :: nat)) :: nat) = 48 + d"
  by simp

lemma digit_not_underscore: "d < 10 \<Longrightarrow> char_of (48 + d :: nat) \<noteq> CHR ''_''"
proof
  assume d: "d < 10" and "char_of (48 + d) = CHR ''_''"
  then have "(of_char (char_of (48 + d)) :: nat) = of_char CHR ''_''"
    by simp
  with d show False
    by simp
qed

lemma digits_value_str_nat: "digits_value (str_nat n) = int n"
proof (induction n rule: str_nat.induct)
  case (1 n)
  show ?case
  proof (cases "n < 10")
    case True
    then show ?thesis
      using digit_not_underscore [of n] digit_char [of n]
      by (subst str_nat.simps) (simp add: digits_value_def)
  next
    case False
    have m: "n mod 10 < 10" by simp
    have "digits_value (str_nat n)
          = 10 * digits_value (str_nat (n div 10)) + (int (of_char (char_of (48 + n mod 10))) - 48)"
      using False digits_value_snoc [OF digit_not_underscore [OF m]]
      by (subst str_nat.simps) simp
    also have "\<dots> = 10 * int (n div 10) + int (n mod 10)"
      using 1 False digit_char [OF m] by simp
    also have "\<dots> = int n"
      by presburger
    finally show ?thesis .
  qed
qed

lemma str_nat_inj: "str_nat m = str_nat n \<longleftrightarrow> m = n"
  by (metis digits_value_str_nat of_nat_eq_iff)

lemma foldl_delitem:
  "foldl seen_delitem d ks = filter (\<lambda>kv. \<not> list_ex (key_eq (fst kv)) ks) d"
proof (induction ks arbitrary: d)
  case Nil
  then show ?case by simp
next
  case (Cons k ks)
  have "foldl seen_delitem d (k # ks) = foldl seen_delitem (seen_delitem d k) ks"
    by simp
  also have "\<dots> = filter (\<lambda>kv. \<not> list_ex (key_eq (fst kv)) ks) (seen_delitem d k)"
    by (rule Cons)
  also have "\<dots> = filter (\<lambda>kv. \<not> list_ex (key_eq (fst kv)) (k # ks)) d"
    unfolding seen_delitem_def filter_filter
    by (rule filter_cong) auto
  finally show ?case .
qed

lemma filter_not_in_take:
  assumes "distinct (map g d)"
  shows "filter (\<lambda>x. g x \<notin> g ` set (take n d)) d = drop n d"
proof -
  have d: "distinct (map g (take n d) @ map g (drop n d))"
    using assms by (metis append_take_drop_id map_append)
  have a: "filter (\<lambda>x. g x \<notin> g ` set (take n d)) (take n d) = []"
    by (simp add: filter_empty_conv)
  have b: "filter (\<lambda>x. g x \<notin> g ` set (take n d)) (drop n d) = drop n d"
    using d by (auto simp: filter_id_conv)
  have "filter (\<lambda>x. g x \<notin> g ` set (take n d)) (take n d @ drop n d) = drop n d"
    unfolding filter_append a b by simp
  then show ?thesis
    by simp
qed

lemma evict_drop:
  assumes "dict_ok seen"
  shows "evict seen = drop 10000 seen"
proof -
  have "evict seen
        = filter (\<lambda>kv. \<not> list_ex (key_eq (fst kv)) (take 10000 (map fst seen))) seen"
    by (simp only: evict_def foldl_delitem)
  also have "\<dots>
        = filter (\<lambda>kv. key_canon (fst kv) \<notin> (\<lambda>kv. key_canon (fst kv)) ` set (take 10000 seen)) seen"
    by (rule filter_cong) (auto simp: list_ex_iff key_eq_def take_map)
  also have "\<dots> = drop 10000 seen"
    using assms unfolding dict_ok_def by (rule filter_not_in_take)
  finally show ?thesis .
qed

lemma seen_contains_str_keys:
  "str_keys d \<Longrightarrow> seen_contains d (KStr s) \<longleftrightarrow> KStr s \<in> fst ` set d"
proof (induction d)
  case Nil
  then show ?case by (simp add: seen_contains_def)
next
  case (Cons kv d)
  then show ?case
    by (cases "fst kv") (auto simp: seen_contains_def str_keys_def key_eq_def)
qed

lemma json_seen_acc:
  assumes "str_keys (acc @ d)" and "distinct (map fst (acc @ d))"
  shows "foldl (\<lambda>acc kv. seen_setitem acc (KStr (json_key (fst kv))) (snd kv)) acc d = acc @ d"
  using assms
proof (induction d arbitrary: acc)
  case Nil
  then show ?case by simp
next
  case (Cons kv d)
  obtain s v where kv: "kv = (KStr s, v)"
    using Cons.prems(1) by (cases kv; cases "fst kv") (auto simp: str_keys_def)
  have acc: "str_keys acc"
    using Cons.prems(1) by (simp add: str_keys_def)
  have "\<not> seen_contains acc (KStr s)"
    using Cons.prems(2) kv by (auto simp: seen_contains_str_keys [OF acc])
  then have step: "seen_setitem acc (KStr s) v = acc @ [kv]"
    using kv by (simp add: seen_setitem_new)
  have "foldl (\<lambda>acc kv. seen_setitem acc (KStr (json_key (fst kv))) (snd kv)) (acc @ [kv]) d
        = (acc @ [kv]) @ d"
    using Cons.prems by (intro Cons.IH) simp_all
  then show ?case
    using step kv by simp
qed

lemma json_seen_id:
  assumes "str_keys d" and "distinct (map fst d)"
  shows "json_seen d = d"
  using json_seen_acc [of "[]" d] assms by (simp add: json_seen_def)

lemma key_canon_str_key: "is_str_key k \<Longrightarrow> key_canon k = k"
  by (cases k) simp_all

lemma dict_ok_str_keys:
  assumes "str_keys d"
  shows "dict_ok d \<longleftrightarrow> distinct (map fst d)"
proof -
  have eq: "map (\<lambda>kv. key_canon (fst kv)) d = map fst d"
    using assms by (intro map_cong) (auto simp: str_keys_def list_all_iff key_canon_str_key)
  show ?thesis
    unfolding dict_ok_def eq by (rule refl)
qed

lemma length_numbered_seen: "length (numbered_seen a b) = b - a"
  by (simp add: numbered_seen_def)

lemma str_keys_numbered_seen: "str_keys (numbered_seen a b)"
  by (simp add: numbered_seen_def str_keys_def list_all_iff)

lemma distinct_numbered_seen: "distinct (map fst (numbered_seen a b))"
  by (simp add: numbered_seen_def distinct_map comp_def inj_on_def str_nat_inj)

lemma drop_numbered_seen: "drop n (numbered_seen a b) = numbered_seen (a + n) b"
  by (simp add: numbered_seen_def drop_map drop_upt)

lemma save_state_persisted:
  assumes "USE_STATE cfg" and "seen_request_ids st = Some seen"
    and "str_keys seen" and "distinct (map fst seen)"
  shows "save_state cfg f st =
           ([StateWrite (st \<lparr> seen_request_ids :=
                                 Some (if 50000 < length seen then drop 10000 seen else seen) \<rparr>)],
            Parsed (st \<lparr> seen_request_ids :=
                            Some (if 50000 < length seen then drop 10000 seen else seen) \<rparr>))"
proof -
  let ?kept = "if 50000 < length seen then drop 10000 seen else seen"
  have ok: "dict_ok seen"
    using assms(3,4) by (simp add: dict_ok_str_keys)
  have ev: "evicted_state st = st \<lparr> seen_request_ids := Some ?kept \<rparr>"
    using assms(2) by (simp add: evicted_state_def evict_drop [OF ok])
  have k1: "str_keys ?kept"
    using assms(3) by (auto simp: str_keys_def list_all_iff dest: in_set_dropD)
  have k2: "distinct (map fst ?kept)"
    using assms(4) by (simp add: drop_map [symmetric] distinct_drop)
  have "json_state (evicted_state st) = st \<lparr> seen_request_ids := Some ?kept \<rparr>"
    unfolding ev json_state_def by (simp add: json_seen_id [OF k1 k2])
  with assms(1) show ?thesis
    by (simp add: save_state_def Let_def)
qed

text \<open>
  C2, as the specification states it, fails: \<open>save_state\<close> removes one batch of 10,000
  ids however many ids the dict holds, so what it writes is not bounded by 50,000.
  Saving a dict of 70,000 ids (a state of 50,000 ids after a cycle with 20,000 new
  hits, say) writes 60,000 ids.
\<close>

theorem eviction_unbounded_counterexample:
  "length (numbered_seen 0 70000) = 70000
   \<and> length (persisted_seen (snd (save_state example_config NoFile (numbered_state 0 70000)))) = 60000"
proof -
  have u: "USE_STATE example_config"
    by (simp add: example_config_def)
  have s: "seen_request_ids (numbered_state 0 70000) = Some (numbered_seen 0 70000)"
    by (simp add: numbered_state_def)
  show ?thesis
    unfolding save_state_persisted [OF u s str_keys_numbered_seen distinct_numbered_seen]
    by (simp add: persisted_seen_def length_numbered_seen)
qed

text \<open>
  C2, amended: in stateful mode, when \<open>save_state\<close> is called with a dict of \<open>n\<close> ids
  (string ids, no id twice), it writes the dict without its first 10,000 entries in
  iteration order when \<open>n > 50,000\<close>, and the dict as it is when \<open>n \<le> 50,000\<close>. So
  the persisted dict has \<open>n - 10,000\<close> ids in the first case, which is at most 50,000
  as long as \<open>n \<le> 60,000\<close>; one save never removes more than one batch.
\<close>

theorem save_state_evicts_one_batch:
  assumes "USE_STATE cfg" and "seen_request_ids st = Some seen"
    and "str_keys seen" and "distinct (map fst seen)"
  shows "save_state cfg f st =
           ([StateWrite (st \<lparr> seen_request_ids :=
                                 Some (if 50000 < length seen then drop 10000 seen else seen) \<rparr>)],
            Parsed (st \<lparr> seen_request_ids :=
                            Some (if 50000 < length seen then drop 10000 seen else seen) \<rparr>))
         \<and> persisted_seen (snd (save_state cfg f st))
           = (if 50000 < length seen then drop 10000 seen else seen)
         \<and> length (persisted_seen (snd (save_state cfg f st)))
           = (if 50000 < length seen then length seen - 10000 else length seen)
         \<and> (length seen \<le> 60000 \<longrightarrow> length (persisted_seen (snd (save_state cfg f st))) \<le> 50000)
         \<and> (length seen \<le> 50000 \<longrightarrow> snd (save_state cfg f st) = Parsed st)"
  using assms(2) unfolding save_state_persisted [OF assms]
  by (auto simp: persisted_seen_def)

theorem save_state_evicts_one_batch_witness:
  "persisted_seen (snd (save_state example_config NoFile (numbered_state 0 50001)))
     = numbered_seen 10000 50001
   \<and> length (persisted_seen (snd (save_state example_config NoFile (numbered_state 0 50001)))) = 40001
   \<and> snd (save_state example_config NoFile (numbered_state 0 50000)) = Parsed (numbered_state 0 50000)"
proof -
  have u: "USE_STATE example_config"
    by (simp add: example_config_def)
  have s: "seen_request_ids (numbered_state 0 n) = Some (numbered_seen 0 n)" for n
    by (simp add: numbered_state_def)
  show ?thesis
    using save_state_evicts_one_batch [OF u s [of 50001] str_keys_numbered_seen
        distinct_numbered_seen, where f = NoFile]
      save_state_evicts_one_batch [OF u s [of 50000] str_keys_numbered_seen
        distinct_numbered_seen, where f = NoFile]
    by (simp add: length_numbered_seen drop_numbered_seen persisted_seen_def numbered_state_def)
qed


end
